theory Spec2Isabelle
  imports Main
begin

section \<open>Configuration of the worker (sw.js, lines 11 to 32)\<close>

definition APP_VERSION :: string where
  "APP_VERSION = ''2025-12-18_03''"

definition CACHE_PREFIX :: string where
  "CACHE_PREFIX = ''svetla''"

definition CACHE_HTML :: string where
  "CACHE_HTML = CACHE_PREFIX @ ''-html-'' @ APP_VERSION"

definition CACHE_ASSETS :: string where
  "CACHE_ASSETS = CACHE_PREFIX @ ''-assets-'' @ APP_VERSION"

definition CORE_ASSETS :: "string list" where
  "CORE_ASSETS =
     [''./'', ''./index.html'', ''./manifest.json'', ''./sw.js'',
      ''./icons/icon-192.png'', ''./icons/icon-512.png'']"

definition MAX_ASSET_ENTRIES :: nat where
  "MAX_ASSET_ENTRIES = 120"

section \<open>Strings\<close>

text \<open>
  The three JavaScript string tests the worker uses: \<^verbatim>\<open>s.startsWith(t)\<close>,
  \<^verbatim>\<open>s.endsWith(t)\<close> and \<^verbatim>\<open>s.includes(t)\<close>.
\<close>

fun startsWith :: "string \<Rightarrow> string \<Rightarrow> bool" where
  "startsWith s [] = True"
| "startsWith [] (c # cs) = False"
| "startsWith (x # xs) (c # cs) = (x = c \<and> startsWith xs cs)"

definition endsWith :: "string \<Rightarrow> string \<Rightarrow> bool" where
  "endsWith s t = startsWith (rev s) (rev t)"

fun str_includes :: "string \<Rightarrow> string \<Rightarrow> bool" where
  "str_includes [] t = (t = [])"
| "str_includes (x # xs) t = (startsWith (x # xs) t \<or> str_includes xs t)"

section \<open>Requests and responses\<close>

text \<open>
  A request as the fetch listener reads it: \<^verbatim>\<open>req.method\<close>, \<^verbatim>\<open>req.url\<close>,
  the origin of \<^verbatim>\<open>new URL(req.url)\<close>, \<^verbatim>\<open>req.mode\<close>, the value of
  \<^verbatim>\<open>req.headers.get('accept')\<close> (\<open>None\<close> for \<^verbatim>\<open>null\<close>) and \<^verbatim>\<open>req.destination\<close>.
\<close>

record request =
  req_method :: string
  url :: string
  origin :: string
  mode :: string
  accept :: "string option"
  destination :: string

text \<open>
  A response snapshot: status, the headers given to it, body. \<^verbatim>\<open>res.ok\<close> is the
  platform's test for a status in the range 200 to 299.
\<close>

record response =
  status :: nat
  headers :: "(string \<times> string) list"
  body :: string

definition ok :: "response \<Rightarrow> bool" where
  "ok r = (200 \<le> status r \<and> status r \<le> 299)"

text \<open>
  Where the worker runs: \<^verbatim>\<open>self.location.origin\<close>, and the directory of the worker
  script, against which the relative paths \<^verbatim>\<open>'./'\<close>, \<^verbatim>\<open>'./index.html'\<close>, ... resolve.
\<close>

record location =
  loc_origin :: string
  loc_base :: string

definition resolve :: "location \<Rightarrow> string \<Rightarrow> string" where
  "resolve loc p = (if startsWith p ''./'' then loc_base loc @ drop 2 p else loc_base loc @ p)"

subsection \<open>Helpers (sw.js, lines 35 to 47)\<close>

definition isSameOrigin :: "location \<Rightarrow> request \<Rightarrow> bool" where
  "isSameOrigin loc req = (origin req = loc_origin loc)"

definition isHTMLRequest :: "request \<Rightarrow> bool" where
  "isHTMLRequest req =
     (mode req = ''navigate''
      \<or> str_includes (case accept req of None \<Rightarrow> '''' | Some a \<Rightarrow> a) ''text/html'')"

definition isAssetRequest :: "request \<Rightarrow> bool" where
  "isAssetRequest req =
     (let dest = destination req in
      dest = ''script'' \<or> dest = ''style'' \<or> dest = ''image'' \<or> dest = ''font''
      \<or> dest = ''audio'' \<or> dest = ''video'')"

text \<open>
  The category of a request is the branch of the fetch listener that answers it: the
  listener tests \<open>isHTMLRequest\<close> first (line 119), then \<open>isAssetRequest\<close> (line 148),
  and everything else falls to the third strategy (line 184).
\<close>

datatype category = Document | Asset | Other

definition classify :: "request \<Rightarrow> category" where
  "classify req =
     (if isHTMLRequest req then Document
      else if isAssetRequest req then Asset
      else Other)"

section \<open>The cache store\<close>

text \<open>
  A partition (a \<^verbatim>\<open>Cache\<close>) is the list of its entries in insertion order, keyed by
  the URL of the GET request; the store (\<^verbatim>\<open>caches\<close>) is the list of the named
  partitions in creation order.
\<close>

type_synonym cache = "(string \<times> response) list"
type_synonym cache_storage = "(string \<times> cache) list"

definition has_cache :: "cache_storage \<Rightarrow> string \<Rightarrow> bool" where
  "has_cache st name = (name \<in> set (map fst st))"

definition entries_of :: "cache_storage \<Rightarrow> string \<Rightarrow> cache" where
  "entries_of st name = (case map_of st name of None \<Rightarrow> [] | Some c \<Rightarrow> c)"

text \<open>\<^verbatim>\<open>caches.open(name)\<close>: the partition is created, empty, when it does not exist.\<close>

definition caches_open :: "string \<Rightarrow> cache_storage \<Rightarrow> cache_storage" where
  "caches_open name st = (if has_cache st name then st else st @ [(name, [])])"

definition caches_keys :: "cache_storage \<Rightarrow> string list" where
  "caches_keys st = map fst st"

definition caches_delete :: "string \<Rightarrow> cache_storage \<Rightarrow> cache_storage" where
  "caches_delete name st = filter (\<lambda>p. fst p \<noteq> name) st"

definition cache_match :: "cache \<Rightarrow> string \<Rightarrow> response option" where
  "cache_match c k = map_of c k"

definition cache_keys :: "cache \<Rightarrow> string list" where
  "cache_keys c = map fst c"

definition cache_delete :: "string \<Rightarrow> cache \<Rightarrow> cache" where
  "cache_delete k c = filter (\<lambda>e. fst e \<noteq> k) c"

text \<open>\<^verbatim>\<open>cache.put(req, res)\<close>: an entry of the same key is replaced, the new one is the youngest.\<close>

definition cache_put :: "string \<Rightarrow> response \<Rightarrow> cache \<Rightarrow> cache" where
  "cache_put k r c = cache_delete k c @ [(k, r)]"

text \<open>An operation on the entries of one named partition of the store.\<close>

definition on_cache :: "string \<Rightarrow> (cache \<Rightarrow> cache) \<Rightarrow> cache_storage \<Rightarrow> cache_storage" where
  "on_cache name f st = map (\<lambda>p. if fst p = name then (fst p, f (snd p)) else p) st"

subsection \<open>trimCache (sw.js, lines 50 to 58)\<close>

text \<open>
  The loop \<^verbatim>\<open>for (let i = 0; i < deleteCount; i++) await cache.delete(keys[i])\<close> over the
  entries of the opened partition. \<open>deleteCount\<close> is at most the number of keys, so
  \<open>keys ! i\<close> is always in range.
\<close>

function trim_loop :: "nat \<Rightarrow> nat \<Rightarrow> string list \<Rightarrow> cache \<Rightarrow> cache" where
  "trim_loop i deleteCount keys c =
     (if i < deleteCount then trim_loop (Suc i) deleteCount keys (cache_delete (keys ! i) c)
      else c)"
  by pat_completeness auto
termination
  by (relation "measure (\<lambda>(i, deleteCount, keys, c). deleteCount - i)") auto

declare trim_loop.simps [simp del]

definition trim_entries :: "nat \<Rightarrow> cache \<Rightarrow> cache" where
  "trim_entries maxEntries c =
     (let keys = cache_keys c in
      if length keys \<le> maxEntries then c
      else (let deleteCount = length keys - maxEntries in trim_loop 0 deleteCount keys c))"

definition trimCache :: "string \<Rightarrow> nat \<Rightarrow> cache_storage \<Rightarrow> cache_storage" where
  "trimCache cacheName maxEntries st =
     on_cache cacheName (trim_entries maxEntries) (caches_open cacheName st)"

section \<open>The environment of one event\<close>

text \<open>
  What an awaited promise comes to: fulfilled with a value, rejected, or never settled.
\<close>

datatype 'a promise = Fulfilled 'a | Rejected | Pending

text \<open>
  Everything outside the worker that one event handler depends on:
  what \<^verbatim>\<open>fetch\<close> of a URL comes to; whether \<^verbatim>\<open>caches.open\<close> and
  \<^verbatim>\<open>cache.match\<close> fulfil or reject; whether \<^verbatim>\<open>cache.put\<close> of a key fulfils or
  rejects (quota); whether the background \<open>trimCache\<close> runs to its end (\<open>None\<close>) or
  is cut by a rejection after a number of deletions; and where the unawaited write of
  the asset strategy lands among the steps of the unawaited trim: before \<open>trimCache\<close>
  reads the keys (\<open>None\<close>), or after it has read them and made a number of its
  deletions (all of them, when the number is larger).
\<close>

record env =
  net :: "string \<Rightarrow> response promise"
  open_ok :: bool
  match_ok :: bool
  put_ok :: "string \<Rightarrow> bool"
  trim_fault :: "nat option"
  put_lands :: "nat option"

text \<open>
  The unawaited \<^verbatim>\<open>cache.put(req, fresh.clone()).catch(()=>{})\<close>: the entry is stored
  when the write succeeds, and nothing happens when it fails.
\<close>

definition background_put :: "env \<Rightarrow> string \<Rightarrow> string \<Rightarrow> response \<Rightarrow> cache_storage \<Rightarrow> cache_storage" where
  "background_put e cacheName k r st =
     (if put_ok e k then on_cache cacheName (cache_put k r) st else st)"

text \<open>
  The unawaited \<^verbatim>\<open>trimCache(CACHE_ASSETS, MAX_ASSET_ENTRIES).catch(()=>{})\<close>: the
  whole of \<open>trimCache\<close>, or its first deletions only when a storage call rejects.
\<close>

definition trim_entries_cut :: "nat \<Rightarrow> nat \<Rightarrow> cache \<Rightarrow> cache" where
  "trim_entries_cut j maxEntries c =
     (let keys = cache_keys c in
      if length keys \<le> maxEntries then c
      else (let deleteCount = length keys - maxEntries in trim_loop 0 (min j deleteCount) keys c))"

definition background_trim :: "env \<Rightarrow> cache_storage \<Rightarrow> cache_storage" where
  "background_trim e st =
     (case trim_fault e of
        None \<Rightarrow> trimCache CACHE_ASSETS MAX_ASSET_ENTRIES st
      | Some j \<Rightarrow> on_cache CACHE_ASSETS (trim_entries_cut j MAX_ASSET_ENTRIES)
                    (caches_open CACHE_ASSETS st))"

text \<open>
  The number of deletions \<open>trimCache\<close> makes on a partition whose keys it has read.
\<close>

definition planned_deletions :: "env \<Rightarrow> nat \<Rightarrow> cache \<Rightarrow> nat" where
  "planned_deletions e maxEntries c =
     (let keys = cache_keys c in
      if length keys \<le> maxEntries then 0
      else (let deleteCount = length keys - maxEntries in
            case trim_fault e of None \<Rightarrow> deleteCount | Some j \<Rightarrow> min j deleteCount))"

text \<open>
  The write landing in the middle of the trim: \<open>trimCache\<close> has read the keys of the
  partition as it was, makes its first \<open>m\<close> deletions, the entry is written, and the
  remaining deletions follow, still by the keys read at the start. A key read at the
  start that is the key written is deleted with its fresh entry.
\<close>

definition interleaved_refresh :: "env \<Rightarrow> nat \<Rightarrow> string \<Rightarrow> response \<Rightarrow> cache \<Rightarrow> cache" where
  "interleaved_refresh e m k fresh c =
     (let keys = cache_keys c;
          n = planned_deletions e MAX_ASSET_ENTRIES c;
          m' = min m n;
          c1 = trim_loop 0 m' keys c;
          c2 = (if put_ok e k then cache_put k fresh c1 else c1)
      in trim_loop m' n keys c2)"

text \<open>
  The two unawaited tasks of lines 158 and 159, started in this order and run to their end.
\<close>

definition refresh_asset :: "env \<Rightarrow> string \<Rightarrow> response \<Rightarrow> cache_storage \<Rightarrow> cache_storage" where
  "refresh_asset e k fresh st =
     (case put_lands e of
        None \<Rightarrow> background_trim e (background_put e CACHE_ASSETS k fresh st)
      | Some m \<Rightarrow> on_cache CACHE_ASSETS (interleaved_refresh e m k fresh)
                    (caches_open CACHE_ASSETS st))"

section \<open>The fetch listener (sw.js, lines 108 to 196)\<close>

definition offline_response :: response where
  "offline_response =
     \<lparr>status = 503, headers = [(''Content-Type'', ''text/plain; charset=utf-8'')],
      body = ''Offline''\<rparr>"

definition gateway_timeout :: response where
  "gateway_timeout = \<lparr>status = 504, headers = [], body = []\<rparr>"

text \<open>
  Each strategy gives what the promise handed to \<^verbatim>\<open>event.respondWith\<close> comes to,
  and the store once the background tasks it started are over.
\<close>

text \<open>1) HTML: network-first (lines 120 to 143).\<close>

definition html_strategy ::
  "location \<Rightarrow> env \<Rightarrow> cache_storage \<Rightarrow> request \<Rightarrow> response promise \<times> cache_storage" where
  "html_strategy loc e st req =
     (if \<not> open_ok e then (Rejected, st)
      else
        (let st1 = caches_open CACHE_HTML st in
         case net e (url req) of
           Fulfilled fresh \<Rightarrow>
             (Fulfilled fresh,
              if ok fresh then background_put e CACHE_HTML (url req) fresh st1 else st1)
         | Pending \<Rightarrow> (Pending, st1)
         | Rejected \<Rightarrow>
             (if \<not> match_ok e then (Rejected, st1)
              else
                (case cache_match (entries_of st1 CACHE_HTML) (url req) of
                   Some cached \<Rightarrow> (Fulfilled cached, st1)
                 | None \<Rightarrow>
                     (case cache_match (entries_of st1 CACHE_HTML) (resolve loc ''./index.html'') of
                        Some fallback \<Rightarrow> (Fulfilled fallback, st1)
                      | None \<Rightarrow> (Fulfilled offline_response, st1))))))"

text \<open>2) Assets: stale-while-revalidate (lines 149 to 179).\<close>

definition asset_strategy ::
  "env \<Rightarrow> cache_storage \<Rightarrow> request \<Rightarrow> response promise \<times> cache_storage" where
  "asset_strategy e st req =
     (if \<not> open_ok e then (Rejected, st)
      else
        (let st1 = caches_open CACHE_ASSETS st in
         if \<not> match_ok e then (Rejected, st1)
         else
           (let cached = cache_match (entries_of st1 CACHE_ASSETS) (url req);
                fetchPromise =
                  (case net e (url req) of
                     Fulfilled fresh \<Rightarrow> Fulfilled (Some fresh)
                   | Rejected \<Rightarrow> Fulfilled None
                   | Pending \<Rightarrow> Pending);
                st2 =
                  (case net e (url req) of
                     Fulfilled fresh \<Rightarrow>
                       (if ok fresh then refresh_asset e (url req) fresh st1 else st1)
                   | Rejected \<Rightarrow> st1
                   | Pending \<Rightarrow> st1)
            in
              case cached of
                Some c \<Rightarrow> (Fulfilled c, st2)
              | None \<Rightarrow>
                  (case fetchPromise of
                     Fulfilled (Some fresh) \<Rightarrow> (Fulfilled fresh, st2)
                   | Fulfilled None \<Rightarrow> (Fulfilled gateway_timeout, st2)
                   | Rejected \<Rightarrow> (Rejected, st2)
                   | Pending \<Rightarrow> (Pending, st2)))))"

text \<open>3) Everything else: network-first with the cache as fallback (lines 184 to 195).\<close>

definition other_strategy ::
  "env \<Rightarrow> cache_storage \<Rightarrow> request \<Rightarrow> response promise \<times> cache_storage" where
  "other_strategy e st req =
     (if \<not> open_ok e then (Rejected, st)
      else
        (let st1 = caches_open CACHE_ASSETS st in
         case net e (url req) of
           Fulfilled fresh \<Rightarrow>
             (Fulfilled fresh,
              if ok fresh then background_put e CACHE_ASSETS (url req) fresh st1 else st1)
         | Pending \<Rightarrow> (Pending, st1)
         | Rejected \<Rightarrow>
             (if \<not> match_ok e then (Rejected, st1)
              else
                (case cache_match (entries_of st1 CACHE_ASSETS) (url req) of
                   Some cached \<Rightarrow> (Fulfilled cached, st1)
                 | None \<Rightarrow> (Fulfilled gateway_timeout, st1)))))"

text \<open>
  The listener itself. \<open>None\<close> is a request the worker leaves alone: it returns without
  calling \<^verbatim>\<open>event.respondWith\<close>.
\<close>

definition fetch_listener ::
  "location \<Rightarrow> env \<Rightarrow> cache_storage \<Rightarrow> request \<Rightarrow> response promise option \<times> cache_storage" where
  "fetch_listener loc e st req =
     (if req_method req \<noteq> ''GET'' then (None, st)
      else if \<not> isSameOrigin loc req then (None, st)
      else if isHTMLRequest req then
        (let (p, st') = html_strategy loc e st req in (Some p, st'))
      else if isAssetRequest req then
        (let (p, st') = asset_strategy e st req in (Some p, st'))
      else
        (let (p, st') = other_strategy e st req in (Some p, st')))"

section \<open>Install and activate (sw.js, lines 61 to 105)\<close>

text \<open>
  One element of the arrays handed to \<^verbatim>\<open>Promise.allSettled\<close> (lines 72 to 82): the
  path is fetched and, when the response is ok, stored under \<open>await\<close>. The elements of
  one array run concurrently; their writes are taken to reach the store in the order of the
  array.
\<close>

definition precache_one ::
  "location \<Rightarrow> env \<Rightarrow> string \<Rightarrow> string \<Rightarrow> cache_storage \<Rightarrow> unit promise \<times> cache_storage" where
  "precache_one loc e cacheName p st =
     (let u = resolve loc p in
      case net e u of
        Fulfilled res \<Rightarrow>
          (if ok res then
             (if put_ok e u then (Fulfilled (), on_cache cacheName (cache_put u res) st)
              else (Rejected, st))
           else (Fulfilled (), st))
      | Rejected \<Rightarrow> (Rejected, st)
      | Pending \<Rightarrow> (Pending, st))"

fun precache_list ::
  "location \<Rightarrow> env \<Rightarrow> string \<Rightarrow> string list \<Rightarrow> cache_storage \<Rightarrow> unit promise list \<times> cache_storage" where
  "precache_list loc e cacheName [] st = ([], st)"
| "precache_list loc e cacheName (p # ps) st =
     (let (r, st1) = precache_one loc e cacheName p st;
          (rs, st2) = precache_list loc e cacheName ps st1
      in (r # rs, st2))"

text \<open>\<^verbatim>\<open>Promise.allSettled\<close> never rejects; it stays pending while an element does.\<close>

definition allSettled :: "unit promise list \<Rightarrow> unit promise" where
  "allSettled rs = (if Pending \<in> set rs then Pending else Fulfilled ())"

definition install ::
  "location \<Rightarrow> env \<Rightarrow> string list \<Rightarrow> cache_storage \<Rightarrow> unit promise \<times> cache_storage" where
  "install loc e manifest st =
     (if \<not> open_ok e then (Rejected, st)
      else
        (let st1 = caches_open CACHE_ASSETS (caches_open CACHE_HTML st);
             htmlList = filter (\<lambda>p. endsWith p ''/'' \<or> endsWith p ''.html'') manifest;
             assetList = filter (\<lambda>p. p \<notin> set htmlList) manifest;
             (rs1, st2) = precache_list loc e CACHE_HTML htmlList st1
         in
           case allSettled rs1 of
             Pending \<Rightarrow> (Pending, st2)
           | Rejected \<Rightarrow> (Rejected, st2)
           | Fulfilled u \<Rightarrow>
               (let (rs2, st3) = precache_list loc e CACHE_ASSETS assetList st2
                in (allSettled rs2, st3))))"

text \<open>The paths of the manifest that the install listener sends to the document partition.\<close>

definition html_like :: "string \<Rightarrow> bool" where
  "html_like p = (endsWith p ''/'' \<or> endsWith p ''.html'')"

definition activate :: "cache_storage \<Rightarrow> cache_storage" where
  "activate st =
     (let keys = caches_keys st;
          allowed = {CACHE_HTML, CACHE_ASSETS}
      in fold (\<lambda>k s. if startsWith k CACHE_PREFIX \<and> k \<notin> allowed then caches_delete k s else s)
           keys st)"

section \<open>The second worker (src/unnamed/part_000)\<close>

definition CACHE :: string where
  "CACHE = ''barvy-v7''"

definition barvy_files :: "string list" where
  "barvy_files =
     [''./'', ''./index.html'', ''./manifest.json'', ''./video.mp4'',
      ''./icon-192.png'', ''./icon-512.png'']"

text \<open>
  \<^verbatim>\<open>cache.addAll(paths)\<close> of the platform: every path is fetched; when one fetch fails
  or gives a response that is not ok the promise rejects and nothing is stored; otherwise
  all the responses are stored.
\<close>

definition fetch_failed :: "response promise \<Rightarrow> bool" where
  "fetch_failed r = (case r of Fulfilled res \<Rightarrow> \<not> ok res | Rejected \<Rightarrow> True | Pending \<Rightarrow> False)"

fun put_all :: "(string \<times> response promise) list \<Rightarrow> cache \<Rightarrow> cache" where
  "put_all [] c = c"
| "put_all ((u, Fulfilled res) # rs) c = put_all rs (cache_put u res c)"
| "put_all ((u, r) # rs) c = put_all rs c"

definition cache_addAll ::
  "location \<Rightarrow> env \<Rightarrow> string list \<Rightarrow> cache \<Rightarrow> unit promise \<times> cache" where
  "cache_addAll loc e paths c =
     (let rs = map (\<lambda>p. (resolve loc p, net e (resolve loc p))) paths in
      if list_ex (\<lambda>r. fetch_failed (snd r)) rs then (Rejected, c)
      else if list_ex (\<lambda>r. snd r = Pending) rs then (Pending, c)
      else if list_ex (\<lambda>r. \<not> put_ok e (fst r)) rs then (Rejected, c)
      else (Fulfilled (), put_all rs c))"

text \<open>The install listener (lines 3 to 15) and the activate listener (lines 17 to 23).\<close>

definition barvy_install ::
  "location \<Rightarrow> env \<Rightarrow> string list \<Rightarrow> cache_storage \<Rightarrow> unit promise \<times> cache_storage" where
  "barvy_install loc e paths st =
     (if \<not> open_ok e then (Rejected, st)
      else
        (let st1 = caches_open CACHE st;
             (r, c) = cache_addAll loc e paths (entries_of st1 CACHE)
         in (r, on_cache CACHE (\<lambda>old. c) st1)))"

definition barvy_activate :: "cache_storage \<Rightarrow> cache_storage" where
  "barvy_activate st = fold caches_delete (filter (\<lambda>k. k \<noteq> CACHE) (caches_keys st)) st"

section \<open>The invariant of the store\<close>

text \<open>
  Partition names are unique in the store, and request keys are unique in a partition.
\<close>

definition wf_store :: "cache_storage \<Rightarrow> bool" where
  "wf_store st = (distinct (caches_keys st) \<and> list_all (\<lambda>p. distinct (cache_keys (snd p))) st)"

section \<open>Concrete requests, responses and environments\<close>

definition here :: location where
  "here = \<lparr>loc_origin = ''https://berniocal.github.io'',
            loc_base = ''https://berniocal.github.io/svetla/''\<rparr>"

definition nav_req :: request where
  "nav_req = \<lparr>req_method = ''GET'', url = ''https://berniocal.github.io/svetla/'',
     origin = ''https://berniocal.github.io'', mode = ''navigate'',
     accept = Some ''text/html,application/xhtml+xml'', destination = ''document''\<rparr>"

definition img_req :: request where
  "img_req = \<lparr>req_method = ''GET'', url = ''https://berniocal.github.io/svetla/icons/icon-192.png'',
     origin = ''https://berniocal.github.io'', mode = ''no-cors'',
     accept = Some ''image/png,image/*'', destination = ''image''\<rparr>"

definition data_req :: request where
  "data_req = \<lparr>req_method = ''GET'', url = ''https://berniocal.github.io/svetla/data.json'',
     origin = ''https://berniocal.github.io'', mode = ''cors'',
     accept = Some ''application/json'', destination = ''''\<rparr>"

text \<open>An image request whose accept header also lists HTML.\<close>

definition img_html_req :: request where
  "img_html_req = \<lparr>req_method = ''GET'', url = ''https://berniocal.github.io/svetla/icons/icon-192.png'',
     origin = ''https://berniocal.github.io'', mode = ''no-cors'',
     accept = Some ''text/html,image/png'', destination = ''image''\<rparr>"

definition page_v1 :: response where
  "page_v1 = \<lparr>status = 200, headers = [(''Content-Type'', ''text/html'')], body = ''v1''\<rparr>"

definition page_v2 :: response where
  "page_v2 = \<lparr>status = 200, headers = [(''Content-Type'', ''text/html'')], body = ''v2''\<rparr>"

definition icon :: response where
  "icon = \<lparr>status = 200, headers = [(''Content-Type'', ''image/png'')], body = ''PNG''\<rparr>"

definition not_found :: response where
  "not_found = \<lparr>status = 404, headers = [], body = ''Not Found''\<rparr>"

definition offline :: env where
  "offline = \<lparr>net = (\<lambda>u. Rejected), open_ok = True, match_ok = True,
     put_ok = (\<lambda>u. True), trim_fault = None, put_lands = None\<rparr>"

definition online :: "response \<Rightarrow> env" where
  "online r = \<lparr>net = (\<lambda>u. Fulfilled r), open_ok = True, match_ok = True,
     put_ok = (\<lambda>u. True), trim_fault = None, put_lands = None\<rparr>"

definition stalled :: env where
  "stalled = \<lparr>net = (\<lambda>u. Pending), open_ok = True, match_ok = True,
     put_ok = (\<lambda>u. True), trim_fault = None, put_lands = None\<rparr>"

text \<open>The network answers, the storage fails: no partition can be opened.\<close>

definition storage_down :: env where
  "storage_down = \<lparr>net = (\<lambda>u. Fulfilled page_v2), open_ok = False, match_ok = False,
     put_ok = (\<lambda>u. False), trim_fault = Some 0, put_lands = None\<rparr>"

text \<open>Every precached file is served, except the video, which is missing (404).\<close>

definition video_missing :: env where
  "video_missing = \<lparr>net = (\<lambda>u. if endsWith u ''video.mp4'' then Fulfilled not_found else Fulfilled icon),
     open_ok = True, match_ok = True, put_ok = (\<lambda>u. True), trim_fault = None, put_lands = None\<rparr>"

text \<open>Every precached file is served, except the manifest, whose fetch fails.\<close>

definition manifest_unreachable :: env where
  "manifest_unreachable = \<lparr>net = (\<lambda>u. if endsWith u ''manifest.json'' then Rejected else Fulfilled icon),
     open_ok = True, match_ok = True, put_ok = (\<lambda>u. True), trim_fault = None, put_lands = None\<rparr>"

definition html_store :: cache_storage where
  "html_store = [(CACHE_HTML, [(''https://berniocal.github.io/svetla/'', page_v1)]), (CACHE_ASSETS, [])]"

definition index_store :: cache_storage where
  "index_store =
     [(CACHE_HTML, [(''https://berniocal.github.io/svetla/index.html'', page_v1)]), (CACHE_ASSETS, [])]"

definition icon_store :: cache_storage where
  "icon_store =
     [(CACHE_HTML, []),
      (CACHE_ASSETS, [(''https://berniocal.github.io/svetla/icons/icon-192.png'', icon)])]"

definition empty_store :: cache_storage where
  "empty_store = [(CACHE_HTML, []), (CACHE_ASSETS, [])]"

text \<open>A store shared by the two workers and a third application of the same origin.\<close>

definition shared_store :: cache_storage where
  "shared_store =
     [(''svetla-html-2025-12-17_01'', []), (CACHE_HTML, []), (CACHE_ASSETS, []),
      (''notes'', []), (CACHE, [])]"

definition three_entries :: cache_storage where
  "three_entries = [(''c'', [(''a'', icon), (''b'', page_v1), (''d'', page_v2)])]"

section \<open>Facts about the store\<close>

lemma cache_delete_drop:
  assumes "distinct (map fst c)" and "i < length c"
  shows "cache_delete (fst (c ! i)) (drop i c) = drop (Suc i) c"
proof -
  have split: "drop i c = c ! i # drop (Suc i) c"
    using assms(2) by (simp add: Cons_nth_drop_Suc)
  have "distinct (map fst (drop i c))"
    using assms(1) by (simp add: drop_map [symmetric])
  then have "fst (c ! i) \<notin> fst ` set (drop (Suc i) c)"
    by (simp add: split)
  then have "\<forall>e\<in>set (drop (Suc i) c). fst e \<noteq> fst (c ! i)"
    by (metis imageI)
  then have "filter (\<lambda>e. fst e \<noteq> fst (c ! i)) (drop (Suc i) c) = drop (Suc i) c"
    by (simp add: filter_id_conv)
  then show ?thesis
    using assms(2) by (simp add: cache_delete_def split)
qed

lemma trim_loop_drop:
  "distinct (map fst c) \<Longrightarrow> i \<le> d \<Longrightarrow> d \<le> length c \<Longrightarrow>
   trim_loop i d (map fst c) (drop i c) = drop d c"
proof (induction "d - i" arbitrary: i)
  case 0
  then show ?case by (simp add: trim_loop.simps)
next
  case (Suc n)
  then have lt: "i < d" by simp
  then have "trim_loop i d (map fst c) (drop i c)
      = trim_loop (Suc i) d (map fst c) (cache_delete (map fst c ! i) (drop i c))"
    by (subst trim_loop.simps) simp
  also have "\<dots> = trim_loop (Suc i) d (map fst c) (drop (Suc i) c)"
    using Suc.prems lt by (simp add: cache_delete_drop)
  also have "\<dots> = drop d c"
    using Suc.hyps Suc.prems lt by (intro Suc.hyps(1)) auto
  finally show ?case .
qed

lemma trim_entries_drop:
  "distinct (cache_keys c) \<Longrightarrow> trim_entries maxEntries c = drop (length c - maxEntries) c"
  using trim_loop_drop [of c 0 "length c - maxEntries"]
  by (simp add: trim_entries_def cache_keys_def Let_def)

lemma trim_entries_cut_drop:
  "distinct (cache_keys c) \<Longrightarrow>
   trim_entries_cut j maxEntries c = drop (min j (length c - maxEntries)) c"
  using trim_loop_drop [of c 0 "min j (length c - maxEntries)"]
  by (simp add: trim_entries_cut_def cache_keys_def Let_def)

lemma entries_of_on_cache_same:
  "entries_of (on_cache name f st) name = (if has_cache st name then f (entries_of st name) else [])"
  by (induction st) (auto simp: entries_of_def on_cache_def has_cache_def)

lemma entries_of_on_cache_other:
  "n \<noteq> name \<Longrightarrow> entries_of (on_cache name f st) n = entries_of st n"
  by (induction st) (auto simp: entries_of_def on_cache_def)

lemma entries_of_caches_open:
  "entries_of (caches_open name st) n = entries_of st n"
proof (cases "map_of st n")
  case None
  then show ?thesis
    by (simp add: entries_of_def caches_open_def map_add_def)
next
  case (Some c)
  then show ?thesis
    by (simp add: entries_of_def caches_open_def map_add_def)
qed

lemma has_cache_caches_open: "has_cache (caches_open name st) n \<longleftrightarrow> n = name \<or> has_cache st n"
  by (auto simp: caches_open_def has_cache_def)

lemma has_cache_on_cache: "has_cache (on_cache name f st) n \<longleftrightarrow> has_cache st n"
  by (induction st) (auto simp: on_cache_def has_cache_def)

lemma entries_of_absent: "\<not> has_cache st n \<Longrightarrow> entries_of st n = []"
  by (simp add: entries_of_def has_cache_def map_of_eq_None_iff [THEN iffD2])

lemma caches_keys_on_cache: "caches_keys (on_cache name f st) = caches_keys st"
  by (induction st) (auto simp: on_cache_def caches_keys_def)

lemma cache_match_put_same: "cache_match (cache_put k r c) k = Some r"
proof -
  have "map_of (filter (\<lambda>e. fst e \<noteq> k) c) k = None"
    by (auto simp: map_of_eq_None_iff)
  then show ?thesis
    by (simp add: cache_match_def cache_put_def cache_delete_def map_add_def)
qed

lemma cache_put_distinct: "distinct (cache_keys c) \<Longrightarrow> distinct (cache_keys (cache_put k r c))"
  by (auto simp: cache_keys_def cache_put_def cache_delete_def distinct_map_filter)

lemma on_cache_unchanged:
  assumes "distinct (caches_keys st)" and "f (entries_of st name) = entries_of st name"
  shows "on_cache name f st = st"
proof -
  have "\<And>p. p \<in> set st \<Longrightarrow> fst p = name \<Longrightarrow> snd p = entries_of st name"
  proof -
    fix p assume "p \<in> set st" "fst p = name"
    then have "(name, snd p) \<in> set st"
      by auto
    then have "map_of st name = Some (snd p)"
      using assms(1) by (simp add: caches_keys_def)
    then show "snd p = entries_of st name"
      by (simp add: entries_of_def)
  qed
  then have "map (\<lambda>p. if fst p = name then (fst p, f (snd p)) else p) st = st"
    using assms(2) by (intro map_idI) auto
  then show ?thesis
    by (simp add: on_cache_def)
qed

section \<open>trimCache\<close>

lemma trimCache_entries:
  assumes "distinct (cache_keys (entries_of st name))"
  shows "entries_of (trimCache name maxEntries st) name
         = drop (length (entries_of st name) - maxEntries) (entries_of st name)"
  using assms
  by (simp add: trimCache_def entries_of_on_cache_same has_cache_caches_open
      entries_of_caches_open trim_entries_drop)

lemma trimCache_others:
  "n \<noteq> name \<Longrightarrow> entries_of (trimCache name maxEntries st) n = entries_of st n"
  by (simp add: trimCache_def entries_of_on_cache_other entries_of_caches_open)

lemma wf_store_entries: "wf_store st \<Longrightarrow> distinct (cache_keys (entries_of st name))"
proof (cases "map_of st name")
  case None
  then show ?thesis by (simp add: entries_of_def cache_keys_def)
next
  case (Some c)
  assume "wf_store st"
  moreover from Some have "(name, c) \<in> set st" by (rule map_of_SomeD)
  ultimately have "distinct (cache_keys c)"
    by (auto simp: wf_store_def list_all_iff)
  with Some show ?thesis by (simp add: entries_of_def)
qed

text \<open>
  Claim C8. \<open>trimCache\<close> changes nothing when the partition holds at most \<open>maxEntries\<close>
  entries. When it holds \<open>maxEntries + k\<close> entries, it holds exactly \<open>maxEntries\<close>
  afterwards, and the \<open>k\<close> entries removed are the \<open>k\<close> oldest: what remains is the list
  of entries without its first \<open>k\<close>. The other partitions are untouched.
\<close>

theorem trimCache_oldest_first:
  assumes "wf_store st"
  shows "(length (entries_of st name) \<le> maxEntries \<longrightarrow>
            entries_of (trimCache name maxEntries st) name = entries_of st name
            \<and> (has_cache st name \<longrightarrow> trimCache name maxEntries st = st))
       \<and> (\<forall>k. length (entries_of st name) = maxEntries + k \<longrightarrow>
            length (entries_of (trimCache name maxEntries st) name) = maxEntries
            \<and> entries_of (trimCache name maxEntries st) name = drop k (entries_of st name)
            \<and> entries_of st name
                = take k (entries_of st name) @ entries_of (trimCache name maxEntries st) name)
       \<and> (\<forall>n. n \<noteq> name \<longrightarrow> entries_of (trimCache name maxEntries st) n = entries_of st n)"
proof -
  have d: "distinct (cache_keys (entries_of st name))"
    using assms by (rule wf_store_entries)
  have noop: "trimCache name maxEntries st = st"
    if "length (entries_of st name) \<le> maxEntries" and "has_cache st name"
  proof -
    have "caches_open name st = st"
      using that(2) by (simp add: caches_open_def)
    moreover have "trim_entries maxEntries (entries_of st name) = entries_of st name"
      using that(1) d by (simp add: trim_entries_drop)
    moreover have "distinct (caches_keys st)"
      using assms by (simp add: wf_store_def)
    ultimately show ?thesis
      by (simp add: trimCache_def on_cache_unchanged)
  qed
  show ?thesis
    using d noop by (simp add: trimCache_entries trimCache_others)
qed

text \<open>
  C8 at a partition of three entries: trimmed to two the oldest goes, trimmed to three nothing does.
\<close>

theorem trimCache_oldest_first_witness:
  "wf_store three_entries
   \<and> entries_of (trimCache ''c'' 2 three_entries) ''c'' = [(''b'', page_v1), (''d'', page_v2)]
   \<and> trimCache ''c'' 3 three_entries = three_entries"
proof -
  have wf: "wf_store three_entries"
    by (simp add: wf_store_def three_entries_def caches_keys_def cache_keys_def)
  have len: "length (entries_of three_entries ''c'') = 2 + 1" "has_cache three_entries ''c''"
     "length (entries_of three_entries ''c'') \<le> 3"
    by (simp_all add: three_entries_def entries_of_def has_cache_def)
  show ?thesis
    using wf len trimCache_oldest_first [OF wf, of "''c''" 2] trimCache_oldest_first [OF wf, of "''c''" 3]
    by (simp add: three_entries_def entries_of_def)
qed

section \<open>Classification\<close>

lemma fetch_listener_by_category:
  assumes "req_method req = ''GET''" and "isSameOrigin loc req"
  shows "fetch_listener loc e st req =
     (case classify req of
        Document \<Rightarrow> (Some (fst (html_strategy loc e st req)), snd (html_strategy loc e st req))
      | Asset \<Rightarrow> (Some (fst (asset_strategy e st req)), snd (asset_strategy e st req))
      | Other \<Rightarrow> (Some (fst (other_strategy e st req)), snd (other_strategy e st req)))"
  using assms by (simp add: fetch_listener_def classify_def split_beta)

text \<open>
  Claim C7, as the listener dispatches. An intercepted same-origin GET request is answered
  by the strategy of its category. It is a document if and only if it is a navigation or its
  accept header includes \<^verbatim>\<open>text/html\<close>; it is an asset if and only if its destination
  is one of script, style, image, font, audio, video and it is not a document; it is of the
  third category otherwise. The document test comes first.
\<close>

theorem classify_dispatch_order:
  assumes "req_method req = ''GET''" and "isSameOrigin loc req"
  shows "fetch_listener loc e st req =
       (case classify req of
          Document \<Rightarrow> (Some (fst (html_strategy loc e st req)), snd (html_strategy loc e st req))
        | Asset \<Rightarrow> (Some (fst (asset_strategy e st req)), snd (asset_strategy e st req))
        | Other \<Rightarrow> (Some (fst (other_strategy e st req)), snd (other_strategy e st req)))
   \<and> (classify req = Document \<longleftrightarrow>
      mode req = ''navigate''
      \<or> str_includes (case accept req of None \<Rightarrow> [] | Some a \<Rightarrow> a) ''text/html'')
   \<and> (classify req = Asset \<longleftrightarrow>
      destination req \<in> {''script'', ''style'', ''image'', ''font'', ''audio'', ''video''}
      \<and> classify req \<noteq> Document)
   \<and> (classify req = Other \<longleftrightarrow>
      destination req \<notin> {''script'', ''style'', ''image'', ''font'', ''audio'', ''video''}
      \<and> classify req \<noteq> Document)"
proof -
  have "classify req = Document \<longleftrightarrow>
      mode req = ''navigate''
      \<or> str_includes (case accept req of None \<Rightarrow> [] | Some a \<Rightarrow> a) ''text/html''"
    by (simp add: classify_def isHTMLRequest_def)
  moreover have "classify req = Asset \<longleftrightarrow>
      destination req \<in> {''script'', ''style'', ''image'', ''font'', ''audio'', ''video''}
      \<and> classify req \<noteq> Document"
    by (auto simp: classify_def isAssetRequest_def Let_def)
  moreover have "classify req = Other \<longleftrightarrow>
      destination req \<notin> {''script'', ''style'', ''image'', ''font'', ''audio'', ''video''}
      \<and> classify req \<noteq> Document"
    by (auto simp: classify_def isAssetRequest_def Let_def)
  ultimately show ?thesis
    using fetch_listener_by_category [OF assms] by simp
qed

text \<open>
  C7 at an image request whose accept header lists \<^verbatim>\<open>text/html\<close>, offline and with nothing
  cached: it is answered by the document strategy, with the offline notice.
\<close>

theorem classify_dispatch_order_witness:
  "classify img_html_req = Document
   \<and> fst (fetch_listener here offline empty_store img_html_req) = Some (Fulfilled offline_response)"
proof -
  have pre: "req_method img_html_req = ''GET''" "isSameOrigin here img_html_req"
    by (simp_all add: img_html_req_def here_def isSameOrigin_def)
  have doc: "mode img_html_req = ''navigate''
      \<or> str_includes (case accept img_html_req of None \<Rightarrow> [] | Some a \<Rightarrow> a) ''text/html''"
    by (simp add: img_html_req_def)
  have "fst (html_strategy here offline empty_store img_html_req) = Fulfilled offline_response"
    by (simp add: html_strategy_def offline_def Let_def empty_store_def caches_open_def
        has_cache_def entries_of_def cache_match_def)
  then show ?thesis
    using classify_dispatch_order [OF pre, of offline empty_store] doc by simp
qed

text \<open>
  C7 as stated fails where the two tests overlap: an image request whose accept header lists
  \<^verbatim>\<open>text/html\<close> has an asset destination and is answered by the document strategy.
\<close>

theorem classify_asset_counterexample:
  "destination img_html_req \<in> {''script'', ''style'', ''image'', ''font'', ''audio'', ''video''}
   \<and> classify img_html_req = Document \<and> classify img_html_req \<noteq> Asset"
  by (simp add: classify_def isHTMLRequest_def img_html_req_def)


section \<open>The fetch listener\<close>

text \<open>
  Claim C1. A same-origin GET document request whose network fetch fails is answered
  with the entry cached for it in the document partition when there is one, otherwise
  with the entry cached for \<^verbatim>\<open>./index.html\<close> when there is one, otherwise with the
  synthesized response: status 503, Content-Type \<^verbatim>\<open>text/plain\<close> (with the parameter
  \<^verbatim>\<open>charset=utf-8\<close>). The storage is healthy: the partition opens and the lookups answer.
\<close>

theorem document_offline_fallback:
  assumes "req_method req = ''GET''" and "isSameOrigin loc req" and "classify req = Document"
    and "net e (url req) = Rejected"
    and "open_ok e" and "match_ok e"
  shows "fst (fetch_listener loc e st req) =
     Some (Fulfilled
       (case cache_match (entries_of st CACHE_HTML) (url req) of
          Some cached \<Rightarrow> cached
        | None \<Rightarrow>
            (case cache_match (entries_of st CACHE_HTML) (resolve loc ''./index.html'') of
               Some fallback \<Rightarrow> fallback
             | None \<Rightarrow> offline_response)))
     \<and> status offline_response = 503
     \<and> map_of (headers offline_response) ''Content-Type'' = Some ''text/plain; charset=utf-8''
     \<and> startsWith ''text/plain; charset=utf-8'' ''text/plain''"
  using assms
  by (simp add: fetch_listener_by_category html_strategy_def entries_of_caches_open
      offline_response_def split: option.splits)

text \<open>
  The three cases of C1 at a navigation to the root of the site, offline: the page is
  cached; only the index document is cached; nothing is cached.
\<close>

theorem document_offline_fallback_witness:
  "fst (fetch_listener here offline html_store nav_req) = Some (Fulfilled page_v1)
   \<and> fst (fetch_listener here offline index_store nav_req) = Some (Fulfilled page_v1)
   \<and> fst (fetch_listener here offline empty_store nav_req) = Some (Fulfilled offline_response)"
proof -
  have pre: "req_method nav_req = ''GET''" "isSameOrigin here nav_req" "classify nav_req = Document"
      "net offline (url nav_req) = Rejected" "open_ok offline" "match_ok offline"
    by (simp_all add: nav_req_def here_def isSameOrigin_def classify_def isHTMLRequest_def
        offline_def)
  show ?thesis
    using document_offline_fallback [OF pre, of html_store]
      document_offline_fallback [OF pre, of index_store]
      document_offline_fallback [OF pre, of empty_store]
    by (simp add: html_store_def index_store_def empty_store_def entries_of_def cache_match_def
        nav_req_def here_def resolve_def CACHE_HTML_def CACHE_ASSETS_def CACHE_PREFIX_def
        APP_VERSION_def)
qed

text \<open>
  Claim C2. An asset request that has an entry in the asset partition is answered with
  that entry, whatever the concurrent network fetch comes to: two runs on the same store
  under any two environments (fetch fulfilled, rejected or never settled, writes and trim
  succeeding or failing) give the same response. The storage can be opened and read in both.
\<close>

theorem asset_cached_ignores_network:
  assumes "req_method req = ''GET''" and "isSameOrigin loc req" and "classify req = Asset"
    and "cache_match (entries_of st CACHE_ASSETS) (url req) = Some cached"
    and "open_ok e" and "match_ok e" and "open_ok e'" and "match_ok e'"
  shows "fst (fetch_listener loc e st req) = Some (Fulfilled cached)
     \<and> fst (fetch_listener loc e' st req) = fst (fetch_listener loc e st req)"
  using assms
  by (simp add: fetch_listener_by_category asset_strategy_def entries_of_caches_open Let_def)

text \<open>
  C2 at a cached icon: the network answers 404, the network is down, the fetch never settles.
\<close>

theorem asset_cached_ignores_network_witness:
  "fst (fetch_listener here (online not_found) icon_store img_req) = Some (Fulfilled icon)
   \<and> fst (fetch_listener here offline icon_store img_req) = Some (Fulfilled icon)
   \<and> fst (fetch_listener here stalled icon_store img_req) = Some (Fulfilled icon)"
proof -
  have pre: "req_method img_req = ''GET''" "isSameOrigin here img_req" "classify img_req = Asset"
      "cache_match (entries_of icon_store CACHE_ASSETS) (url img_req) = Some icon"
    by (simp_all add: img_req_def here_def isSameOrigin_def classify_def isHTMLRequest_def
        isAssetRequest_def icon_store_def entries_of_def cache_match_def
        CACHE_HTML_def CACHE_ASSETS_def CACHE_PREFIX_def APP_VERSION_def)
  have envs: "open_ok (online not_found)" "match_ok (online not_found)"
      "open_ok offline" "match_ok offline" "open_ok stalled" "match_ok stalled"
    by (simp_all add: online_def offline_def stalled_def)
  show ?thesis
    using asset_cached_ignores_network [OF pre envs(1,2) envs(3,4)]
      asset_cached_ignores_network [OF pre envs(1,2) envs(5,6)]
    by simp
qed

text \<open>
  Claim C5. A same-origin GET document request whose network fetch gives a response with a
  successful status is answered with that very response (so with its body), and afterwards
  the document partition holds an entry for the request, when the storage is healthy (the
  partition opens and the write is accepted).
\<close>

theorem document_fresh_is_stored:
  assumes "req_method req = ''GET''" and "isSameOrigin loc req" and "classify req = Document"
    and "net e (url req) = Fulfilled fresh" and "ok fresh"
    and "open_ok e" and "put_ok e (url req)"
  shows "fst (fetch_listener loc e st req) = Some (Fulfilled fresh)
     \<and> cache_match (entries_of (snd (fetch_listener loc e st req)) CACHE_HTML) (url req)
         = Some fresh"
  using assms
  by (simp add: fetch_listener_by_category html_strategy_def background_put_def
      entries_of_on_cache_same has_cache_caches_open entries_of_caches_open
      cache_match_put_same Let_def)

text \<open>
  C5 at a navigation to the root of the site, whose cached page is replaced by the fresh one.
\<close>

theorem document_fresh_is_stored_witness:
  "fst (fetch_listener here (online page_v2) html_store nav_req) = Some (Fulfilled page_v2)
   \<and> cache_match (entries_of (snd (fetch_listener here (online page_v2) html_store nav_req))
        CACHE_HTML) (url nav_req) = Some page_v2"
proof -
  have pre: "req_method nav_req = ''GET''" "isSameOrigin here nav_req" "classify nav_req = Document"
      "net (online page_v2) (url nav_req) = Fulfilled page_v2" "ok page_v2"
      "open_ok (online page_v2)" "put_ok (online page_v2) (url nav_req)"
    by (simp_all add: nav_req_def here_def isSameOrigin_def classify_def isHTMLRequest_def
        online_def ok_def page_v2_def)
  show ?thesis
    using document_fresh_is_stored [OF pre, of html_store] by simp
qed

text \<open>
  Claim C6. An asset request with no cached entry whose network fetch fails, and a request of
  the third category whose network fetch fails with no cached entry, are answered with the
  synthesized response of status 504 and empty body.
\<close>

theorem total_failure_gateway_timeout:
  assumes "req_method req = ''GET''" and "isSameOrigin loc req"
    and "classify req = Asset \<or> classify req = Other"
    and "net e (url req) = Rejected"
    and "cache_match (entries_of st CACHE_ASSETS) (url req) = None"
    and "open_ok e" and "match_ok e"
  shows "fst (fetch_listener loc e st req) = Some (Fulfilled gateway_timeout)
     \<and> status gateway_timeout = 504 \<and> body gateway_timeout = []"
  using assms
  by (auto simp: fetch_listener_by_category asset_strategy_def other_strategy_def
      entries_of_caches_open gateway_timeout_def Let_def)

text \<open>
  C6 at an image and at a JSON file, offline, with nothing cached.
\<close>

theorem total_failure_gateway_timeout_witness:
  "fst (fetch_listener here offline empty_store img_req) = Some (Fulfilled gateway_timeout)
   \<and> fst (fetch_listener here offline empty_store data_req) = Some (Fulfilled gateway_timeout)"
proof -
  have img: "req_method img_req = ''GET''" "isSameOrigin here img_req"
      "classify img_req = Asset \<or> classify img_req = Other"
      "net offline (url img_req) = Rejected"
      "cache_match (entries_of empty_store CACHE_ASSETS) (url img_req) = None"
    by (simp_all add: img_req_def here_def isSameOrigin_def classify_def isHTMLRequest_def
        isAssetRequest_def offline_def empty_store_def entries_of_def cache_match_def
        CACHE_HTML_def CACHE_ASSETS_def CACHE_PREFIX_def APP_VERSION_def)
  have data: "req_method data_req = ''GET''" "isSameOrigin here data_req"
      "classify data_req = Asset \<or> classify data_req = Other"
      "net offline (url data_req) = Rejected"
      "cache_match (entries_of empty_store CACHE_ASSETS) (url data_req) = None"
    by (simp_all add: data_req_def here_def isSameOrigin_def classify_def isHTMLRequest_def
        isAssetRequest_def offline_def empty_store_def entries_of_def cache_match_def
        CACHE_HTML_def CACHE_ASSETS_def CACHE_PREFIX_def APP_VERSION_def)
  have env: "open_ok offline" "match_ok offline"
    by (simp_all add: offline_def)
  show ?thesis
    using total_failure_gateway_timeout [OF img env] total_failure_gateway_timeout [OF data env]
    by simp
qed

text \<open>
  Claim C10. When the network fetch completes with a status that is not successful, that
  response is returned as it is and the entries of every partition are as before, whatever
  the partitions hold; for an asset request, when it has no cached entry.
\<close>

theorem error_status_passes_through:
  assumes "req_method req = ''GET''" and "isSameOrigin loc req"
    and "net e (url req) = Fulfilled r" and "\<not> ok r"
    and "open_ok e"
    and "classify req = Asset \<longrightarrow>
           match_ok e \<and> cache_match (entries_of st CACHE_ASSETS) (url req) = None"
  shows "fst (fetch_listener loc e st req) = Some (Fulfilled r)
     \<and> (\<forall>n. entries_of (snd (fetch_listener loc e st req)) n = entries_of st n)"
  using assms
  by (cases "classify req")
    (simp_all add: fetch_listener_by_category html_strategy_def asset_strategy_def
      other_strategy_def entries_of_caches_open Let_def)

text \<open>
  C10 at a 404 for a navigation with a cached page, for an uncached image and for a JSON file.
\<close>

theorem error_status_passes_through_witness:
  "fst (fetch_listener here (online not_found) html_store nav_req) = Some (Fulfilled not_found)
   \<and> entries_of (snd (fetch_listener here (online not_found) html_store nav_req)) CACHE_HTML
       = entries_of html_store CACHE_HTML
   \<and> fst (fetch_listener here (online not_found) empty_store img_req) = Some (Fulfilled not_found)
   \<and> fst (fetch_listener here (online not_found) icon_store data_req) = Some (Fulfilled not_found)"
proof -
  have env: "\<not> ok not_found" "open_ok (online not_found)" "match_ok (online not_found)"
    by (simp_all add: online_def ok_def not_found_def)
  have nav: "req_method nav_req = ''GET''" "isSameOrigin here nav_req"
      "net (online not_found) (url nav_req) = Fulfilled not_found"
      "classify nav_req \<noteq> Asset"
    by (simp_all add: nav_req_def here_def isSameOrigin_def classify_def isHTMLRequest_def
        online_def)
  have img: "req_method img_req = ''GET''" "isSameOrigin here img_req"
      "net (online not_found) (url img_req) = Fulfilled not_found"
      "cache_match (entries_of empty_store CACHE_ASSETS) (url img_req) = None"
    by (simp_all add: img_req_def here_def isSameOrigin_def online_def empty_store_def
        entries_of_def cache_match_def
        CACHE_HTML_def CACHE_ASSETS_def CACHE_PREFIX_def APP_VERSION_def)
  have data: "req_method data_req = ''GET''" "isSameOrigin here data_req"
      "net (online not_found) (url data_req) = Fulfilled not_found"
      "classify data_req \<noteq> Asset"
    by (simp_all add: data_req_def here_def isSameOrigin_def classify_def isHTMLRequest_def
        isAssetRequest_def online_def)
  show ?thesis
    using error_status_passes_through [OF nav(1-3) env(1,2), of html_store]
      error_status_passes_through [OF img(1-3) env(1,2), of empty_store]
      error_status_passes_through [OF data(1-3) env(1,2), of icon_store]
      nav(4) img(4) data(4) env(3)
    by simp
qed


section \<open>Storage failures\<close>

lemma html_strategy_response_writes:
  "fst (html_strategy loc (e\<lparr>put_ok := p, trim_fault := t, put_lands := b\<rparr>) st req)
   = fst (html_strategy loc e st req)"
  by (simp add: html_strategy_def Let_def split: promise.splits option.splits)

lemma asset_strategy_response_writes:
  "fst (asset_strategy (e\<lparr>put_ok := p, trim_fault := t, put_lands := b\<rparr>) st req)
   = fst (asset_strategy e st req)"
  by (simp add: asset_strategy_def Let_def split: promise.splits option.splits)

lemma other_strategy_response_writes:
  "fst (other_strategy (e\<lparr>put_ok := p, trim_fault := t, put_lands := b\<rparr>) st req)
   = fst (other_strategy e st req)"
  by (simp add: other_strategy_def Let_def split: promise.splits option.splits)

lemma fetch_listener_response_writes:
  "fst (fetch_listener loc (e\<lparr>put_ok := p, trim_fault := t, put_lands := b\<rparr>) st req)
   = fst (fetch_listener loc e st req)"
  by (simp add: fetch_listener_def split_beta html_strategy_response_writes
      asset_strategy_response_writes other_strategy_response_writes)

lemma html_strategy_not_rejected:
  "open_ok e \<Longrightarrow> match_ok e \<Longrightarrow> fst (html_strategy loc e st req) \<noteq> Rejected"
  by (simp add: html_strategy_def Let_def split: promise.splits option.splits)

lemma asset_strategy_not_rejected:
  "open_ok e \<Longrightarrow> match_ok e \<Longrightarrow> fst (asset_strategy e st req) \<noteq> Rejected"
  by (simp add: asset_strategy_def Let_def split: promise.splits option.splits)

lemma other_strategy_not_rejected:
  "open_ok e \<Longrightarrow> match_ok e \<Longrightarrow> fst (other_strategy e st req) \<noteq> Rejected"
  by (simp add: other_strategy_def Let_def split: promise.splits option.splits)

lemma fetch_listener_not_rejected:
  "open_ok e \<Longrightarrow> match_ok e \<Longrightarrow> fst (fetch_listener loc e st req) \<noteq> Some Rejected"
  by (simp add: fetch_listener_def split_beta html_strategy_not_rejected
      asset_strategy_not_rejected other_strategy_not_rejected)

lemma navigation_resolves:
  assumes "req_method req = ''GET''" and "isSameOrigin loc req" and "classify req = Document"
    and "open_ok e" and "match_ok e" and "net e (url req) \<noteq> Pending"
  shows "\<exists>r. fst (fetch_listener loc e st req) = Some (Fulfilled r)
      \<and> (net e (url req) = Fulfilled r
         \<or> cache_match (entries_of st CACHE_HTML) (url req) = Some r
         \<or> cache_match (entries_of st CACHE_HTML) (resolve loc ''./index.html'') = Some r
         \<or> r = offline_response)"
  using assms
  by (cases "net e (url req)")
    (auto simp: fetch_listener_by_category html_strategy_def entries_of_caches_open Let_def
      split: option.splits)

lemma fetch_listener_open_rejects:
  assumes "req_method req = ''GET''" and "isSameOrigin loc req" and "\<not> open_ok e"
  shows "fst (fetch_listener loc e st req) = Some Rejected"
  using assms
  by (simp add: fetch_listener_def split_beta html_strategy_def asset_strategy_def
      other_strategy_def)

text \<open>
  Claim C9, as the code has it. Whether a \<^verbatim>\<open>cache.put\<close> or the background trim fails, and
  however the two interleave, never changes what the listener answers, for any request; the
  answer is never a rejection as long as the partition opens and the lookups answer; and
  then a navigation whose fetch settles resolves to the fresh response, the cached entry,
  the cached index document or the offline notice. When \<^verbatim>\<open>caches.open\<close> rejects, the
  answer to every intercepted request, of any category, is a rejection.
\<close>

theorem write_failures_are_swallowed:
  "fst (fetch_listener loc (e\<lparr>put_ok := p, trim_fault := t, put_lands := b\<rparr>) st req)
     = fst (fetch_listener loc e st req)
   \<and> (open_ok e \<and> match_ok e \<longrightarrow> fst (fetch_listener loc e st req) \<noteq> Some Rejected)
   \<and> (req_method req = ''GET'' \<and> isSameOrigin loc req \<and> classify req = Document
        \<and> open_ok e \<and> match_ok e \<and> net e (url req) \<noteq> Pending \<longrightarrow>
      (\<exists>r. fst (fetch_listener loc e st req) = Some (Fulfilled r)
        \<and> (net e (url req) = Fulfilled r
           \<or> cache_match (entries_of st CACHE_HTML) (url req) = Some r
           \<or> cache_match (entries_of st CACHE_HTML) (resolve loc ''./index.html'') = Some r
           \<or> r = offline_response)))
   \<and> (req_method req = ''GET'' \<and> isSameOrigin loc req \<and> \<not> open_ok e \<longrightarrow>
        fst (fetch_listener loc e st req) = Some Rejected)"
proof (intro conjI impI)
  show "fst (fetch_listener loc (e\<lparr>put_ok := p, trim_fault := t, put_lands := b\<rparr>) st req)
      = fst (fetch_listener loc e st req)"
    by (rule fetch_listener_response_writes)
next
  assume "open_ok e \<and> match_ok e"
  then show "fst (fetch_listener loc e st req) \<noteq> Some Rejected"
    by (simp add: fetch_listener_not_rejected)
next
  assume "req_method req = ''GET'' \<and> isSameOrigin loc req \<and> classify req = Document
        \<and> open_ok e \<and> match_ok e \<and> net e (url req) \<noteq> Pending"
  then show "\<exists>r. fst (fetch_listener loc e st req) = Some (Fulfilled r)
        \<and> (net e (url req) = Fulfilled r
           \<or> cache_match (entries_of st CACHE_HTML) (url req) = Some r
           \<or> cache_match (entries_of st CACHE_HTML) (resolve loc ''./index.html'') = Some r
           \<or> r = offline_response)"
    by (intro navigation_resolves) simp_all
next
  assume "req_method req = ''GET'' \<and> isSameOrigin loc req \<and> \<not> open_ok e"
  then show "fst (fetch_listener loc e st req) = Some Rejected"
    by (intro fetch_listener_open_rejects) simp_all
qed

text \<open>
  C9 at a navigation and at an uncached image: the fresh response is returned although the
  write fails and the trim is cut; the offline notice is returned when nothing is cached; a
  cached image is never answered with a rejection while the storage opens; and an image, a
  JSON file and a navigation are all rejected when the storage does not open.
\<close>

theorem write_failures_are_swallowed_witness:
  "fst (fetch_listener here
          ((online page_v2)\<lparr>put_ok := (\<lambda>u. False), trim_fault := Some 0, put_lands := Some 0\<rparr>)
          html_store nav_req)
     = Some (Fulfilled page_v2)
   \<and> fst (fetch_listener here
          ((online icon)\<lparr>put_ok := (\<lambda>u. False), trim_fault := Some 0, put_lands := Some 0\<rparr>)
          empty_store img_req)
     = Some (Fulfilled icon)
   \<and> fst (fetch_listener here offline empty_store nav_req) = Some (Fulfilled offline_response)
   \<and> fst (fetch_listener here offline icon_store img_req) \<noteq> Some Rejected
   \<and> fst (fetch_listener here storage_down icon_store img_req) = Some Rejected
   \<and> fst (fetch_listener here storage_down empty_store data_req) = Some Rejected
   \<and> fst (fetch_listener here storage_down html_store nav_req) = Some Rejected"
proof -
  have reqs: "req_method nav_req = ''GET'' \<and> isSameOrigin here nav_req"
      "req_method img_req = ''GET'' \<and> isSameOrigin here img_req"
      "req_method data_req = ''GET'' \<and> isSameOrigin here data_req"
      "classify nav_req = Document"
    by (simp_all add: nav_req_def img_req_def data_req_def here_def isSameOrigin_def
        classify_def isHTMLRequest_def)
  have envs: "open_ok offline \<and> match_ok offline" "net offline (url nav_req) \<noteq> Pending"
      "\<not> open_ok storage_down"
    by (simp_all add: offline_def storage_down_def)
  have fresh_nav: "fst (fetch_listener here (online page_v2) html_store nav_req)
      = Some (Fulfilled page_v2)"
    by (simp add: fetch_listener_def html_strategy_def nav_req_def here_def isSameOrigin_def
        isHTMLRequest_def online_def split_beta Let_def)
  have fresh_img: "fst (fetch_listener here (online icon) empty_store img_req)
      = Some (Fulfilled icon)"
    by (simp add: fetch_listener_def asset_strategy_def img_req_def here_def isSameOrigin_def
        isHTMLRequest_def isAssetRequest_def online_def split_beta Let_def empty_store_def
        caches_open_def has_cache_def entries_of_def cache_match_def
        CACHE_HTML_def CACHE_ASSETS_def CACHE_PREFIX_def APP_VERSION_def)
  have miss: "net offline (url nav_req) = Rejected"
      "cache_match (entries_of empty_store CACHE_HTML) (url nav_req) = None"
      "cache_match (entries_of empty_store CACHE_HTML) (resolve here ''./index.html'') = None"
    by (simp_all add: offline_def empty_store_def entries_of_def cache_match_def)
  show ?thesis
    using write_failures_are_swallowed
        [where loc = here and e = "online page_v2" and p = "\<lambda>u. False" and t = "Some 0"
           and b = "Some 0" and st = html_store and req = nav_req]
      write_failures_are_swallowed
        [where loc = here and e = "online icon" and p = "\<lambda>u. False" and t = "Some 0"
           and b = "Some 0" and st = empty_store and req = img_req]
      write_failures_are_swallowed
        [where loc = here and e = offline and p = "put_ok offline" and t = "trim_fault offline"
           and b = "put_lands offline" and st = empty_store and req = nav_req]
      write_failures_are_swallowed
        [where loc = here and e = offline and p = "put_ok offline" and t = "trim_fault offline"
           and b = "put_lands offline" and st = icon_store and req = img_req]
      write_failures_are_swallowed
        [where loc = here and e = storage_down and p = "put_ok storage_down"
           and t = "trim_fault storage_down" and b = "put_lands storage_down"
           and st = icon_store and req = img_req]
      write_failures_are_swallowed
        [where loc = here and e = storage_down and p = "put_ok storage_down"
           and t = "trim_fault storage_down" and b = "put_lands storage_down"
           and st = empty_store and req = data_req]
      write_failures_are_swallowed
        [where loc = here and e = storage_down and p = "put_ok storage_down"
           and t = "trim_fault storage_down" and b = "put_lands storage_down"
           and st = html_store and req = nav_req]
      reqs envs fresh_nav fresh_img miss
    by auto
qed

text \<open>
  C9 as stated fails when \<^verbatim>\<open>caches.open\<close> rejects. The document partition does not exist,
  so opening it has to create it, and the storage refuses. The call is awaited before the
  \<^verbatim>\<open>try\<close> block, so the navigation is rejected although the network has the page; with a
  healthy storage the same navigation is answered with the page.
\<close>

theorem open_failure_counterexample:
  "fst (fetch_listener here (online page_v2) [] nav_req) = Some (Fulfilled page_v2)
   \<and> fst (fetch_listener here storage_down [] nav_req) = Some Rejected"
  by (simp add: fetch_listener_def html_strategy_def nav_req_def here_def isSameOrigin_def
      isHTMLRequest_def online_def storage_down_def split_beta Let_def)

section \<open>Activation\<close>

lemma fold_caches_delete:
  "fold (\<lambda>k s. if P k then caches_delete k s else s) ks st
   = filter (\<lambda>p. \<not> (P (fst p) \<and> fst p \<in> set ks)) st"
proof (induction ks arbitrary: st)
  case Nil
  then show ?case by simp
next
  case (Cons k ks)
  show ?case
    by (auto simp: Cons.IH caches_delete_def intro: filter_cong)
qed

lemma activate_filter:
  "activate st
   = filter (\<lambda>p. \<not> startsWith (fst p) CACHE_PREFIX \<or> fst p = CACHE_HTML \<or> fst p = CACHE_ASSETS) st"
  by (auto simp: activate_def Let_def fold_caches_delete caches_keys_def intro: filter_cong)

lemma barvy_activate_filter: "barvy_activate st = filter (\<lambda>p. fst p = CACHE) st"
proof -
  have "fold caches_delete ks s = filter (\<lambda>p. fst p \<notin> set ks) s" for ks s
    by (induction ks arbitrary: s) (auto simp: caches_delete_def intro: filter_cong)
  then show ?thesis
    by (auto simp: barvy_activate_def caches_keys_def intro: filter_cong)
qed

lemma entries_of_filter_names:
  "P n \<Longrightarrow> entries_of (filter (\<lambda>p. P (fst p)) st) n = entries_of st n"
  by (induction st) (auto simp: entries_of_def)

lemma current_names_carry_prefix:
  "startsWith CACHE_HTML CACHE_PREFIX" "startsWith CACHE_ASSETS CACHE_PREFIX"
  "CACHE_HTML \<noteq> CACHE_ASSETS"
  by (simp_all add: CACHE_HTML_def CACHE_ASSETS_def CACHE_PREFIX_def APP_VERSION_def)

lemma activate_deletes_stale_generations:
  "caches_keys (activate st)
     = filter (\<lambda>k. \<not> startsWith k CACHE_PREFIX \<or> k = CACHE_HTML \<or> k = CACHE_ASSETS) (caches_keys st)"
  "has_cache (activate st) n
     \<longleftrightarrow> has_cache st n \<and> (\<not> startsWith n CACHE_PREFIX \<or> n = CACHE_HTML \<or> n = CACHE_ASSETS)"
  "\<not> startsWith n CACHE_PREFIX \<or> n = CACHE_HTML \<or> n = CACHE_ASSETS
     \<Longrightarrow> entries_of (activate st) n = entries_of st n"
proof -
  show "caches_keys (activate st)
     = filter (\<lambda>k. \<not> startsWith k CACHE_PREFIX \<or> k = CACHE_HTML \<or> k = CACHE_ASSETS) (caches_keys st)"
    by (simp add: activate_filter caches_keys_def filter_map comp_def)
  then show "has_cache (activate st) n
     \<longleftrightarrow> has_cache st n \<and> (\<not> startsWith n CACHE_PREFIX \<or> n = CACHE_HTML \<or> n = CACHE_ASSETS)"
    by (auto simp: has_cache_def caches_keys_def)
  show "entries_of (activate st) n = entries_of st n"
    if "\<not> startsWith n CACHE_PREFIX \<or> n = CACHE_HTML \<or> n = CACHE_ASSETS"
    using that
      entries_of_filter_names
        [of "\<lambda>k. \<not> startsWith k CACHE_PREFIX \<or> k = CACHE_HTML \<or> k = CACHE_ASSETS" n st]
    by (simp add: activate_filter)
qed

text \<open>
  Claim C3, on the activate listener of the second worker. The store holds a stale and the
  two current partitions of the first worker, a partition \<open>notes\<close> of another
  application of the origin, and the second worker's own partition. The second worker's
  listener deletes everything but its own partition: also \<open>notes\<close>, which carries
  no prefix of either worker, and the current document and asset partitions. The first
  worker's listener, on the same store, deletes the stale partition only.
\<close>

theorem barvy_activate_deletes_foreign_partitions:
  "caches_keys shared_store
     = [''svetla-html-2025-12-17_01'', CACHE_HTML, CACHE_ASSETS, ''notes'', CACHE]
   \<and> caches_keys (barvy_activate shared_store) = [CACHE]
   \<and> caches_keys (activate shared_store) = [CACHE_HTML, CACHE_ASSETS, ''notes'', CACHE]
   \<and> \<not> startsWith ''notes'' CACHE_PREFIX \<and> \<not> startsWith ''notes'' ''barvy''"
  by (simp add: barvy_activate_filter activate_filter shared_store_def caches_keys_def
      CACHE_def CACHE_HTML_def CACHE_ASSETS_def CACHE_PREFIX_def APP_VERSION_def)


section \<open>Install\<close>

lemma cache_match_put_other: "u \<noteq> k \<Longrightarrow> cache_match (cache_put k r c) u = cache_match c u"
proof -
  assume "u \<noteq> k"
  then have "map_of (filter (\<lambda>e. fst e \<noteq> k) c) u = map_of c u"
    by (induction c) auto
  with \<open>u \<noteq> k\<close> show ?thesis
    by (simp add: cache_match_def cache_put_def cache_delete_def map_add_def split: option.splits)
qed

lemma precache_one_keys: "caches_keys (snd (precache_one loc e name p st)) = caches_keys st"
  by (simp add: precache_one_def Let_def caches_keys_on_cache split: promise.splits)

lemma precache_one_others:
  "n \<noteq> name \<Longrightarrow> entries_of (snd (precache_one loc e name p st)) n = entries_of st n"
  by (simp add: precache_one_def Let_def entries_of_on_cache_other split: promise.splits)

lemma precache_one_keeps:
  assumes "cache_match (entries_of st name) u = Some res" and "net e u = Fulfilled res"
  shows "cache_match (entries_of (snd (precache_one loc e name p st)) name) u = Some res"
proof -
  have present: "has_cache st name"
    using assms(1) entries_of_absent [of st name] by (cases "has_cache st name") (auto simp: cache_match_def)
  show ?thesis
  proof (cases "resolve loc p = u")
    case True
    then show ?thesis
      using assms present
      by (simp add: precache_one_def Let_def entries_of_on_cache_same cache_match_put_same)
  next
    case False
    then show ?thesis
      using assms present
      by (simp add: precache_one_def Let_def entries_of_on_cache_same cache_match_put_other
          split: promise.splits)
  qed
qed

lemma precache_one_stores:
  assumes "has_cache st name" and "net e (resolve loc p) = Fulfilled res" and "ok res"
    and "put_ok e (resolve loc p)"
  shows "cache_match (entries_of (snd (precache_one loc e name p st)) name) (resolve loc p) = Some res"
  using assms
  by (simp add: precache_one_def Let_def entries_of_on_cache_same cache_match_put_same)

lemma precache_list_keys: "caches_keys (snd (precache_list loc e name ps st)) = caches_keys st"
  by (induction ps arbitrary: st) (simp_all add: split_beta Let_def precache_one_keys)

lemma precache_list_others:
  "n \<noteq> name \<Longrightarrow> entries_of (snd (precache_list loc e name ps st)) n = entries_of st n"
  by (induction ps arbitrary: st) (simp_all add: split_beta Let_def precache_one_others)

lemma precache_list_keeps:
  "cache_match (entries_of st name) u = Some res \<Longrightarrow> net e u = Fulfilled res \<Longrightarrow>
   cache_match (entries_of (snd (precache_list loc e name ps st)) name) u = Some res"
  by (induction ps arbitrary: st) (simp_all add: split_beta Let_def precache_one_keeps)

lemma has_cache_keys: "has_cache st n \<longleftrightarrow> n \<in> set (caches_keys st)"
  by (simp add: has_cache_def caches_keys_def)

lemma precache_list_stores:
  "has_cache st name \<Longrightarrow> p \<in> set ps \<Longrightarrow> net e (resolve loc p) = Fulfilled res \<Longrightarrow> ok res \<Longrightarrow>
   put_ok e (resolve loc p) \<Longrightarrow>
   cache_match (entries_of (snd (precache_list loc e name ps st)) name) (resolve loc p) = Some res"
proof (induction ps arbitrary: st)
  case Nil
  then show ?case by simp
next
  case (Cons q ps)
  have present: "has_cache (snd (precache_one loc e name q st)) name"
    using Cons.prems(1) by (simp add: has_cache_keys precache_one_keys)
  show ?case
  proof (cases "p = q")
    case True
    then have "cache_match (entries_of (snd (precache_one loc e name q st)) name) (resolve loc p)
        = Some res"
      using Cons.prems by (simp add: precache_one_stores)
    then show ?thesis
      using Cons.prems(3) by (simp add: split_beta Let_def precache_list_keeps)
  next
    case False
    then have "p \<in> set ps"
      using Cons.prems(2) by simp
    then show ?thesis
      using Cons.IH [OF present] Cons.prems by (simp add: split_beta Let_def)
  qed
qed

lemma precache_list_pending:
  "Pending \<in> set (fst (precache_list loc e name ps st))
   \<longleftrightarrow> (\<exists>p\<in>set ps. net e (resolve loc p) = Pending)"
proof (induction ps arbitrary: st)
  case Nil
  then show ?case by simp
next
  case (Cons q ps)
  have "fst (precache_one loc e name q st) = Pending \<longleftrightarrow> net e (resolve loc q) = Pending"
    by (simp add: precache_one_def Let_def split: promise.splits)
  then show ?case
    by (auto simp: split_beta Let_def Cons.IH)
qed


lemma install_never_fails:
  "open_ok e \<Longrightarrow> fst (install loc e manifest st) \<noteq> Rejected"
  by (simp add: install_def Let_def split_beta allSettled_def)

lemma install_settles:
  assumes "open_ok e" and "\<forall>p\<in>set manifest. net e (resolve loc p) \<noteq> Pending"
  shows "fst (install loc e manifest st) = Fulfilled ()"
  using assms
  by (auto simp: install_def Let_def split_beta allSettled_def precache_list_pending)

lemma install_stores_each:
  assumes "open_ok e" and "p \<in> set manifest"
    and "net e (resolve loc p) = Fulfilled res" and "ok res" and "put_ok e (resolve loc p)"
    and "\<forall>q\<in>set manifest. html_like q \<longrightarrow> net e (resolve loc q) \<noteq> Pending"
  shows "cache_match
           (entries_of (snd (install loc e manifest st))
              (if html_like p then CACHE_HTML else CACHE_ASSETS))
           (resolve loc p) = Some res"
proof -
  define st1 where "st1 = caches_open CACHE_ASSETS (caches_open CACHE_HTML st)"
  define htmlList where "htmlList = filter (\<lambda>p. endsWith p ''/'' \<or> endsWith p ''.html'') manifest"
  define assetList where "assetList = filter (\<lambda>p. p \<notin> set htmlList) manifest"
  define st2 where "st2 = snd (precache_list loc e CACHE_HTML htmlList st1)"
  define st3 where "st3 = snd (precache_list loc e CACHE_ASSETS assetList st2)"
  have settled: "allSettled (fst (precache_list loc e CACHE_HTML htmlList st1)) = Fulfilled ()"
    using assms(6) by (auto simp: allSettled_def precache_list_pending htmlList_def html_like_def)
  have result: "snd (install loc e manifest st) = st3"
    using assms(1) settled
    by (simp add: install_def Let_def split_beta st1_def htmlList_def assetList_def st2_def st3_def)
  have open1: "has_cache st1 CACHE_HTML" "has_cache st1 CACHE_ASSETS"
    by (simp_all add: st1_def has_cache_caches_open)
  have open2: "has_cache st2 CACHE_ASSETS"
    using open1(2) by (simp add: st2_def has_cache_keys precache_list_keys)
  show ?thesis
  proof (cases "html_like p")
    case True
    then have "p \<in> set htmlList"
      using assms(2) by (simp add: htmlList_def html_like_def)
    then have "cache_match (entries_of st2 CACHE_HTML) (resolve loc p) = Some res"
      unfolding st2_def using open1(1) assms(3-5) by (intro precache_list_stores)
    then have "cache_match (entries_of st3 CACHE_HTML) (resolve loc p) = Some res"
      using current_names_carry_prefix(3) by (simp add: st3_def precache_list_others)
    then show ?thesis
      using True by (simp add: result)
  next
    case False
    then have "p \<in> set assetList"
      using assms(2) by (simp add: assetList_def htmlList_def html_like_def)
    then have "cache_match (entries_of st3 CACHE_ASSETS) (resolve loc p) = Some res"
      unfolding st3_def using open2 assms(3-5) by (intro precache_list_stores)
    then show ?thesis
      using False by (simp add: result)
  qed
qed

lemma install_opens_both:
  "open_ok e \<Longrightarrow> has_cache (snd (install loc e manifest st)) CACHE_HTML
     \<and> has_cache (snd (install loc e manifest st)) CACHE_ASSETS"
  by (simp add: install_def Let_def split_beta has_cache_keys precache_list_keys
      has_cache_caches_open [unfolded has_cache_keys] split: promise.splits)

lemma install_then_activate_current:
  assumes "open_ok e"
  shows "set (filter (\<lambda>k. startsWith k CACHE_PREFIX)
            (caches_keys (activate (snd (install loc e manifest st)))))
         = {CACHE_HTML, CACHE_ASSETS}"
  using install_opens_both [OF assms, of loc manifest st] current_names_carry_prefix
  by (auto simp: activate_deletes_stale_generations(1) has_cache_keys)


section \<open>The install listener of the second worker\<close>

lemma barvy_install_all_or_nothing:
  assumes "open_ok e" and "p \<in> set paths" and "fetch_failed (net e (resolve loc p))"
  shows "fst (barvy_install loc e paths st) = Rejected
     \<and> (\<forall>n. entries_of (snd (barvy_install loc e paths st)) n = entries_of st n)"
proof -
  have failed: "list_ex (\<lambda>r. fetch_failed (snd r))
      (map (\<lambda>p. (resolve loc p, net e (resolve loc p))) paths)"
    using assms(2,3) by (auto simp: list_ex_iff)
  have same: "entries_of (on_cache CACHE (\<lambda>old. entries_of (caches_open CACHE st) CACHE)
      (caches_open CACHE st)) n = entries_of st n" for n
    by (cases "n = CACHE")
      (simp_all add: entries_of_on_cache_same entries_of_on_cache_other has_cache_caches_open
        entries_of_caches_open)
  show ?thesis
    using assms(1) failed same
    by (simp add: barvy_install_def cache_addAll_def Let_def)
qed

text \<open>
  Claim C4, on the install listener of the second worker. One file of the list, the video,
  is answered with 404 and every other file is served. \<^verbatim>\<open>cache.addAll\<close> rejects, the
  install phase fails and no file is stored. The install listener of the first worker, on
  the same list and network, completes and stores the files that were served.
\<close>

theorem barvy_install_is_all_or_nothing:
  "fst (barvy_install here video_missing barvy_files []) = Rejected
   \<and> entries_of (snd (barvy_install here video_missing barvy_files [])) CACHE = []
   \<and> fst (install here video_missing barvy_files []) = Fulfilled ()
   \<and> cache_match (entries_of (snd (install here video_missing barvy_files [])) CACHE_HTML)
        ''https://berniocal.github.io/svetla/index.html'' = Some icon
   \<and> cache_match (entries_of (snd (install here video_missing barvy_files [])) CACHE_ASSETS)
        ''https://berniocal.github.io/svetla/icon-192.png'' = Some icon"
proof -
  have env: "open_ok video_missing"
    by (simp add: video_missing_def)
  have video: "''./video.mp4'' \<in> set barvy_files"
      "fetch_failed (net video_missing (resolve here ''./video.mp4''))"
    by (simp_all add: barvy_files_def video_missing_def resolve_def here_def endsWith_def
        fetch_failed_def ok_def not_found_def)
  have settle: "\<forall>p\<in>set barvy_files. net video_missing (resolve here p) \<noteq> Pending"
    by (simp add: video_missing_def)
  have index: "''./index.html'' \<in> set barvy_files"
      "net video_missing (resolve here ''./index.html'') = Fulfilled icon" "ok icon"
      "put_ok video_missing (resolve here ''./index.html'')" "html_like ''./index.html''"
      "resolve here ''./index.html'' = ''https://berniocal.github.io/svetla/index.html''"
    by (simp_all add: barvy_files_def video_missing_def resolve_def here_def endsWith_def
        ok_def icon_def html_like_def)
  have png: "''./icon-192.png'' \<in> set barvy_files"
      "net video_missing (resolve here ''./icon-192.png'') = Fulfilled icon"
      "put_ok video_missing (resolve here ''./icon-192.png'')" "\<not> html_like ''./icon-192.png''"
      "resolve here ''./icon-192.png'' = ''https://berniocal.github.io/svetla/icon-192.png''"
    by (simp_all add: barvy_files_def video_missing_def resolve_def here_def endsWith_def
        html_like_def)
  have pend: "\<forall>q\<in>set barvy_files. html_like q \<longrightarrow> net video_missing (resolve here q) \<noteq> Pending"
    using settle by simp
  show ?thesis
    using barvy_install_all_or_nothing [OF env video, of "[]"]
      install_settles [OF env settle, of "[]"]
      install_stores_each [OF env index(1,2,3,4) pend, of "[]"]
      install_stores_each [OF env png(1,2) index(3) png(3) pend, of "[]"]
      index(5,6) png(4,5)
    by (simp add: entries_of_def)
qed

section \<open>The invariant is kept\<close>

lemma wf_store_caches_open: "wf_store st \<Longrightarrow> wf_store (caches_open name st)"
  by (auto simp: wf_store_def caches_open_def has_cache_def caches_keys_def cache_keys_def)

lemma wf_store_on_cache:
  assumes "wf_store st" and "\<And>c. distinct (cache_keys c) \<Longrightarrow> distinct (cache_keys (f c))"
  shows "wf_store (on_cache name f st)"
proof -
  have "list_all (\<lambda>p. distinct (cache_keys (snd p))) (on_cache name f st)"
    using assms by (auto simp: wf_store_def on_cache_def list_all_iff)
  then show ?thesis
    using assms(1) by (simp add: wf_store_def caches_keys_on_cache)
qed

lemma wf_store_caches_delete: "wf_store st \<Longrightarrow> wf_store (caches_delete name st)"
  by (auto simp: wf_store_def caches_delete_def caches_keys_def list_all_iff distinct_map_filter)

lemma wf_store_filter: "wf_store st \<Longrightarrow> wf_store (filter P st)"
  by (auto simp: wf_store_def caches_keys_def list_all_iff distinct_map_filter)

lemma wf_store_trimCache: "wf_store st \<Longrightarrow> wf_store (trimCache name maxEntries st)"
  unfolding trimCache_def
  by (intro wf_store_on_cache wf_store_caches_open)
    (simp_all add: trim_entries_drop cache_keys_def drop_map [symmetric])

lemma wf_store_background_put: "wf_store st \<Longrightarrow> wf_store (background_put e name k r st)"
  by (simp add: background_put_def wf_store_on_cache cache_put_distinct)

lemma wf_store_background_trim: "wf_store st \<Longrightarrow> wf_store (background_trim e st)"
proof (cases "trim_fault e")
  case None
  assume "wf_store st"
  with None show ?thesis
    by (simp add: background_trim_def wf_store_trimCache)
next
  case (Some j)
  assume "wf_store st"
  then have "wf_store (on_cache CACHE_ASSETS (trim_entries_cut j MAX_ASSET_ENTRIES)
      (caches_open CACHE_ASSETS st))"
    by (intro wf_store_on_cache wf_store_caches_open)
      (simp_all add: trim_entries_cut_drop cache_keys_def drop_map [symmetric])
  with Some show ?thesis
    by (simp add: background_trim_def)
qed

lemma cache_delete_distinct: "distinct (cache_keys c) \<Longrightarrow> distinct (cache_keys (cache_delete k c))"
  by (simp add: cache_keys_def cache_delete_def distinct_map_filter)

lemma trim_loop_distinct:
  "distinct (cache_keys c) \<Longrightarrow> distinct (cache_keys (trim_loop i n keys c))"
proof (induction i n keys c rule: trim_loop.induct)
  case (1 i deleteCount keys c)
  show ?case
  proof (cases "i < deleteCount")
    case True
    then show ?thesis
      using "1.IH" "1.prems" by (subst trim_loop.simps) (simp add: cache_delete_distinct)
  next
    case False
    then show ?thesis
      using "1.prems" by (subst trim_loop.simps) simp
  qed
qed

lemma interleaved_refresh_distinct:
  "distinct (cache_keys c) \<Longrightarrow> distinct (cache_keys (interleaved_refresh e m k r c))"
  by (simp add: interleaved_refresh_def Let_def trim_loop_distinct cache_put_distinct)

lemma wf_store_refresh_asset: "wf_store st \<Longrightarrow> wf_store (refresh_asset e k r st)"
proof (cases "put_lands e")
  case None
  assume "wf_store st"
  with None show ?thesis
    by (simp add: refresh_asset_def wf_store_background_put wf_store_background_trim)
next
  case (Some m)
  assume "wf_store st"
  then have "wf_store (on_cache CACHE_ASSETS (interleaved_refresh e m k r)
      (caches_open CACHE_ASSETS st))"
    by (intro wf_store_on_cache wf_store_caches_open interleaved_refresh_distinct)
  with Some show ?thesis
    by (simp add: refresh_asset_def)
qed

lemma wf_store_fetch_listener:
  assumes "wf_store st"
  shows "wf_store (snd (fetch_listener loc e st req))"
proof -
  have "wf_store (snd (html_strategy loc e st req))"
    using assms
    by (simp add: html_strategy_def Let_def wf_store_caches_open wf_store_background_put
        split: promise.splits option.splits)
  moreover have "wf_store (snd (asset_strategy e st req))"
    using assms
    by (simp add: asset_strategy_def Let_def wf_store_caches_open wf_store_refresh_asset
        split: promise.splits option.splits)
  moreover have "wf_store (snd (other_strategy e st req))"
    using assms
    by (simp add: other_strategy_def Let_def wf_store_caches_open wf_store_background_put
        split: promise.splits option.splits)
  ultimately show ?thesis
    using assms by (simp add: fetch_listener_def split_beta)
qed

lemma wf_store_precache_list:
  "wf_store st \<Longrightarrow> wf_store (snd (precache_list loc e name ps st))"
proof (induction ps arbitrary: st)
  case Nil
  then show ?case by simp
next
  case (Cons p ps)
  have "wf_store (snd (precache_one loc e name p st))"
    using Cons.prems
    by (simp add: precache_one_def Let_def wf_store_on_cache cache_put_distinct
        split: promise.splits)
  then show ?case
    by (simp add: split_beta Let_def Cons.IH)
qed

lemma wf_store_install: "wf_store st \<Longrightarrow> wf_store (snd (install loc e manifest st))"
  by (simp add: install_def Let_def split_beta wf_store_precache_list wf_store_caches_open
      split: promise.splits)

lemma wf_store_activate: "wf_store st \<Longrightarrow> wf_store (activate st)"
  by (simp add: activate_filter wf_store_filter)

lemma wf_store_empty: "wf_store []"
  by (simp add: wf_store_def caches_keys_def)

section \<open>The write races the trim\<close>

lemma trim_loop_filter:
  "n \<le> length keys \<Longrightarrow>
   trim_loop i n keys c = filter (\<lambda>e. fst e \<notin> set (drop i (take n keys))) c"
proof (induction i n keys c rule: trim_loop.induct)
  case (1 i deleteCount keys c)
  show ?case
  proof (cases "i < deleteCount")
    case True
    then have "drop i (take deleteCount keys) = keys ! i # drop (Suc i) (take deleteCount keys)"
      using "1.prems" by (simp add: Cons_nth_drop_Suc [symmetric])
    then show ?thesis
      using True "1.IH" "1.prems"
      by (subst trim_loop.simps) (auto simp: cache_delete_def intro: filter_cong)
  next
    case False
    then show ?thesis
      by (subst trim_loop.simps) simp
  qed
qed

text \<open>
  When the trim has read the keys before the write lands, and the key written is the oldest
  of an overfull partition, the deletions that follow remove the fresh entry.
\<close>

lemma trim_deletes_fresh_entry:
  assumes "trim_fault e = None" and "MAX_ASSET_ENTRIES < length c"
  shows "cache_match (interleaved_refresh e 0 (fst (hd c)) fresh c) (fst (hd c)) = None"
proof -
  define n where "n = length c - MAX_ASSET_ENTRIES"
  have n: "0 < n" "n \<le> length (cache_keys c)"
    using assms(2) by (simp_all add: n_def cache_keys_def)
  have plan: "planned_deletions e MAX_ASSET_ENTRIES c = n"
    using assms by (simp add: planned_deletions_def Let_def n_def cache_keys_def)
  have "c \<noteq> []"
    using assms(2) by auto
  then have "fst (hd c) = cache_keys c ! 0"
    by (cases c) (simp_all add: cache_keys_def)
  then have mem: "fst (hd c) \<in> set (take n (cache_keys c))"
    using n by (simp add: in_set_conv_nth) (metis nth_take)
  have result: "interleaved_refresh e 0 (fst (hd c)) fresh c
      = filter (\<lambda>e. fst e \<notin> set (take n (cache_keys c)))
          (if put_ok e (fst (hd c)) then cache_put (fst (hd c)) fresh c else c)"
    using n(2) by (simp add: interleaved_refresh_def Let_def plan trim_loop_filter
        trim_loop.simps [of 0 0])
  show ?thesis
    unfolding result cache_match_def using mem by (auto simp: map_of_eq_None_iff)
qed

end
